theory Spec2Isabelle
  imports Complex_Main
begin

section \<open>Data model\<close>

text \<open>
  The cart hook of the storefront: \<^verbatim>\<open>src/hooks/useCart.tsx\<close> (the full variant) and
  the second copy of the same module, \<^verbatim>\<open>src/unnamed/part_000\<close>, which writes to the
  store inside its operations and whose \<^verbatim>\<open>updateProductAmount\<close> is an empty stub.

  What the model takes for granted:
  \<^item> identifiers and amounts are JavaScript numbers that hold integers, written as
    \<open>int\<close>; the one addition the code makes on them, \<^verbatim>\<open>currentAmount + 1\<close>, rounds as
    the addition of doubles does (\<open>js_add\<close> below);
  \<^item> one operation ends, and the component renders again, before the next one starts;
  \<^item> \<^verbatim>\<open>useEffect\<close> is React's hook (the file imports the name from the type
    declarations of React) and \<^verbatim>\<open>localStorage.setItem\<close> does not throw;
  \<^item> a product answer has the fields of a product. An answer of another shape would
    give an entry without these fields; the object spread that builds the entry does not
    throw for any value.

  What \<^verbatim>\<open>GET /products/:id\<close> answers, and a cart entry: the answer's fields merged with
  \<^verbatim>\<open>amount\<close>. The price is carried along and never computed with. The fields \<^verbatim>\<open>id\<close>
  and \<^verbatim>\<open>image\<close> carry a prime because HOL already has constants of these names.
\<close>

record catalog_product =
  id' :: int
  title :: string
  price :: rat
  image' :: string

record product = catalog_product +
  amount :: int

text \<open>
  JavaScript arrays and objects are references. \<^verbatim>\<open>[...cart]\<close> copies the array, not
  the entries in it, and \<^verbatim>\<open>productExists.amount = amount\<close> writes to an object that the
  old array still holds. So entries live in a store of objects and arrays in a store of
  arrays; a reference is a position in its store, and allocation appends.
\<close>

type_synonym ref = nat

text \<open>The four messages given to \<^verbatim>\<open>toast.error\<close> (written here without accents).\<close>

datatype toast =
  Out_of_stock     \<comment> \<open>\<^verbatim>\<open>'Quantidade solicitada fora de estoque'\<close>\<close>
| Add_failed       \<comment> \<open>\<^verbatim>\<open>'Erro na adicao de produto'\<close>\<close>
| Remove_failed    \<comment> \<open>\<^verbatim>\<open>'Erro na remocao do produto'\<close>\<close>
| Update_failed    \<comment> \<open>\<^verbatim>\<open>'Erro na alteracao de quantidade do produto'\<close>\<close>

text \<open>The requests sent through \<^verbatim>\<open>api.get\<close>.\<close>

datatype request =
  Get_stock int      \<comment> \<open>\<^verbatim>\<open>GET /stock/${productId}\<close>\<close>
| Get_products int   \<comment> \<open>\<^verbatim>\<open>GET /products/${productId}\<close>\<close>

text \<open>
  The text stored under \<^verbatim>\<open>'@RocketShoes:cart'\<close>. \<^verbatim>\<open>JSON.stringify\<close> belongs to the
  runtime and is kept as a constructor: the stored text is named by the list it was made
  from.
\<close>

datatype snapshot = JSON_stringify "product list"

fun JSON_parse :: "snapshot \<Rightarrow> product list" where
  "JSON_parse (JSON_stringify xs) = xs"

text \<open>
  The promise returned by \<^verbatim>\<open>api.get\<close> either rejects (no connection, a status outside
  2xx) or resolves to a response whose \<^verbatim>\<open>data\<close> is the parsed body.

  Of the stock body the code reads \<^verbatim>\<open>stock.data.amount\<close> and uses it once, on the right of
  \<^verbatim>\<open>amount > stockAmount\<close>. Reading a property of \<^verbatim>\<open>null\<close> or \<^verbatim>\<open>undefined\<close> throws
  a TypeError. Otherwise the comparison converts the value to a number: \<open>Some s\<close> is a
  value that converts to the number \<open>s\<close> (a number, a string of digits, or \<^verbatim>\<open>null\<close>,
  which converts to 0), \<open>None\<close> one that converts to NaN (\<^verbatim>\<open>undefined\<close>, where the
  property is missing as in \<^verbatim>\<open>{}\<close> or in a body that could not be parsed and was left
  a string, or a value with no number to convert to, such as \<^verbatim>\<open>"many"\<close>).
\<close>

datatype 'a response = Rejected | Resolved 'a

datatype stock_data =
  Null
| Stock "int option"

record api =
  get_stock :: "int \<Rightarrow> stock_data response"
  get_products :: "int \<Rightarrow> catalog_product response"

text \<open>\<^verbatim>\<open>amount > stockAmount\<close>: every comparison with NaN is false.\<close>

fun js_gt :: "int \<Rightarrow> int option \<Rightarrow> bool" where
  "js_gt a None = False"
| "js_gt a (Some s) = (a > s)"

text \<open>
  \<^verbatim>\<open>a + b\<close> on numbers: the sum of two doubles is the exact sum rounded to the nearest
  double, and of two nearest doubles to the one whose significand is even. A double has a
  significand of 53 bits, so every integer up to \<open>2 ^ 53\<close> in size is a double and a
  larger one is a double only when its low bits are zero. \<open>excess m\<close> is the number of
  low bits that \<open>m \<ge> 0\<close> has beyond 53, \<open>round_double m\<close> rounds them away. (Sums of
  \<open>2 ^ 1024\<close> and more, which become \<^verbatim>\<open>Infinity\<close>, are not modelled.)
\<close>

function excess :: "int \<Rightarrow> nat" where
  "excess m = (if m < 2 ^ 53 then 0 else Suc (excess (m div 2)))"
  by pat_completeness auto
termination
  by (relation "measure (\<lambda>m. nat m)") auto

declare excess.simps [simp del]

definition round_double :: "int \<Rightarrow> int" where
  "round_double m =
     (let e = excess m; q = m div 2 ^ e; r = m mod 2 ^ e
      in if 2 * r > 2 ^ e \<or> (2 * r = 2 ^ e \<and> odd q) then (q + 1) * 2 ^ e else q * 2 ^ e)"

definition js_add :: "int \<Rightarrow> int \<Rightarrow> int" where
  "js_add a b = sgn (a + b) * round_double \<bar>a + b\<bar>"

datatype exn =
  Network_error   \<comment> \<open>the promise of \<^verbatim>\<open>api.get\<close> rejected\<close>
| Type_error      \<comment> \<open>a property of \<^verbatim>\<open>null\<close> was read\<close>
| Error           \<comment> \<open>\<^verbatim>\<open>throw Error()\<close>\<close>

text \<open>
  The state an operation runs in: the two stores, the \<^verbatim>\<open>cart\<close> of \<^verbatim>\<open>useState\<close> (a
  reference to an array), \<^verbatim>\<open>prevCartRef.current\<close>, the dependencies React remembers for
  the second effect, the item of \<^verbatim>\<open>localStorage\<close> with the number of \<^verbatim>\<open>setItem\<close> calls
  made, and the requests and toasts issued so far.
\<close>

record world =
  objects :: "product list"
  arrays :: "ref list list"
  cart :: ref
  prevCartRef :: "ref option"
  effect_deps :: "(ref \<times> ref) option"
  localStorage :: "snapshot option"
  setItem_calls :: nat
  requests :: "request list"
  toasts :: "toast list"

text \<open>The entries an array holds, and the cart as the user sees it.\<close>

definition entries :: "world \<Rightarrow> ref \<Rightarrow> product list" where
  "entries w a = map (\<lambda>r. objects w ! r) (arrays w ! a)"

definition cart_list :: "world \<Rightarrow> product list" where
  "cart_list w = entries w (cart w)"

section \<open>The runtime's operations\<close>

text \<open>\<^verbatim>\<open>[...a]\<close>: a new array with the same elements.\<close>

definition spread :: "ref \<Rightarrow> world \<Rightarrow> ref \<times> world" where
  "spread a w = (length (arrays w), w\<lparr>arrays := arrays w @ [arrays w ! a]\<rparr>)"

text \<open>\<^verbatim>\<open>a.find(p)\<close>: the first element that satisfies \<open>p\<close>, or \<^verbatim>\<open>undefined\<close>.\<close>

definition find_js :: "(product \<Rightarrow> bool) \<Rightarrow> ref \<Rightarrow> world \<Rightarrow> ref option" where
  "find_js p a w = List.find (\<lambda>r. p (objects w ! r)) (arrays w ! a)"

text \<open>\<^verbatim>\<open>a.findIndex(p)\<close>: the position of the first such element, or \<open>-1\<close>.\<close>

fun findIndex_list :: "('a \<Rightarrow> bool) \<Rightarrow> 'a list \<Rightarrow> int" where
  "findIndex_list p [] = -1"
| "findIndex_list p (x # xs) =
     (if p x then 0
      else (let i = findIndex_list p xs in if i < 0 then -1 else i + 1))"

definition findIndex :: "(product \<Rightarrow> bool) \<Rightarrow> ref \<Rightarrow> world \<Rightarrow> int" where
  "findIndex p a w = findIndex_list (\<lambda>r. p (objects w ! r)) (arrays w ! a)"

text \<open>\<^verbatim>\<open>a.splice(start, 1)\<close> with \<open>0 \<le> start\<close>: the element at \<open>start\<close> goes, in place.\<close>

definition splice1 :: "ref \<Rightarrow> nat \<Rightarrow> world \<Rightarrow> world" where
  "splice1 a start w =
     w\<lparr>arrays := (arrays w)[a := take start (arrays w ! a) @ drop (start + 1) (arrays w ! a)]\<rparr>"

text \<open>\<^verbatim>\<open>a.push(r)\<close>, in place.\<close>

definition push :: "ref \<Rightarrow> ref \<Rightarrow> world \<Rightarrow> world" where
  "push a r w = w\<lparr>arrays := (arrays w)[a := arrays w ! a @ [r]]\<rparr>"

text \<open>An object literal: a new object.\<close>

definition new_object :: "product \<Rightarrow> world \<Rightarrow> ref \<times> world" where
  "new_object p w = (length (objects w), w\<lparr>objects := objects w @ [p]\<rparr>)"

text \<open>\<^verbatim>\<open>r.amount = v\<close>: the object is changed where it is.\<close>

definition set_amount :: "ref \<Rightarrow> int \<Rightarrow> world \<Rightarrow> world" where
  "set_amount r v w = w\<lparr>objects := (objects w)[r := (objects w ! r)\<lparr>amount := v\<rparr>]\<rparr>"

definition toast_error :: "toast \<Rightarrow> world \<Rightarrow> world" where
  "toast_error t w = w\<lparr>toasts := toasts w @ [t]\<rparr>"

definition api_get :: "request \<Rightarrow> world \<Rightarrow> world" where
  "api_get q w = w\<lparr>requests := requests w @ [q]\<rparr>"

definition setItem :: "snapshot \<Rightarrow> world \<Rightarrow> world" where
  "setItem s w = w\<lparr>localStorage := Some s, setItem_calls := setItem_calls w + 1\<rparr>"

section \<open>The component of \<^verbatim>\<open>src/hooks/useCart.tsx\<close>\<close>

text \<open>
  The initializer of \<^verbatim>\<open>useState\<close>: the stored text is parsed into new objects in a
  new array, and without a stored text the cart is the empty array. Only texts written
  by \<^verbatim>\<open>JSON.stringify\<close> are modelled.
\<close>

definition useState_init :: "snapshot option \<Rightarrow> world" where
  "useState_init storagedCart =
     (let xs = (case storagedCart of None \<Rightarrow> [] | Some s \<Rightarrow> JSON_parse s)
      in \<lparr>objects = xs, arrays = [[0..<length xs]], cart = 0,
          prevCartRef = None, effect_deps = None,
          localStorage = storagedCart, setItem_calls = 0,
          requests = [], toasts = []\<rparr>)"

text \<open>
  One render of \<^verbatim>\<open>CartProvider\<close> followed by its effects. The body reads
  \<^verbatim>\<open>prevCartRef.current ?? cart\<close>; the first effect has no dependency list and always
  runs; the second runs when one of \<^verbatim>\<open>[cart, cartPreviousValue]\<close> is another reference
  than at the render before, and writes when the two differ (\<^verbatim>\<open>!==\<close> on arrays compares
  references).
\<close>

definition render :: "world \<Rightarrow> world" where
  "render w =
     (let cartPreviousValue = (case prevCartRef w of None \<Rightarrow> cart w | Some p \<Rightarrow> p);
          w1 = w\<lparr>prevCartRef := Some (cart w)\<rparr>;
          deps = (cart w, cartPreviousValue)
      in if effect_deps w = Some deps then w1
         else (let w2 = w1\<lparr>effect_deps := Some deps\<rparr>
               in if cartPreviousValue \<noteq> cart w
                  then setItem (JSON_stringify (cart_list w)) w2
                  else w2))"

definition mount :: "snapshot option \<Rightarrow> world" where
  "mount storagedCart = render (useState_init storagedCart)"

text \<open>
  \<^verbatim>\<open>setCart(a)\<close>: React keeps the state and does nothing when \<open>a\<close> is the reference it
  already holds, and renders again otherwise.
\<close>

definition setCart :: "ref \<Rightarrow> world \<Rightarrow> world" where
  "setCart a w = (if a = cart w then w else render (w\<lparr>cart := a\<rparr>))"

text \<open>
  Each operation is a \<^verbatim>\<open>try\<close> block and its \<^verbatim>\<open>catch\<close>. The block returns \<open>Inl e\<close>
  where it throws \<open>e\<close>, with the state reached by then; the operation returns \<open>Inl e\<close>
  where the exception would reach the caller (for the two \<^verbatim>\<open>async\<close> functions: where the
  promise would reject).
\<close>

definition addProduct_try :: "api \<Rightarrow> int \<Rightarrow> world \<Rightarrow> (exn + unit) \<times> world" where
  "addProduct_try srv productId w0 =
     (let (updatedCart, w1) = spread (cart w0) w0;
          productExists = find_js (\<lambda>product. id' product = productId) updatedCart w1;
          w2 = api_get (Get_stock productId) w1
      in case get_stock srv productId of
           Rejected \<Rightarrow> (Inl Network_error, w2)
         | Resolved Null \<Rightarrow> (Inl Type_error, w2)
         | Resolved (Stock stockAmount) \<Rightarrow>
            (let currentAmount =
                   (case productExists of Some r \<Rightarrow> amount (objects w2 ! r) | None \<Rightarrow> 0);
                 amount1 = js_add currentAmount 1
             in if js_gt amount1 stockAmount then (Inr (), toast_error Out_of_stock w2)
                else (case productExists of
                        Some r \<Rightarrow> (Inr (), setCart updatedCart (set_amount r amount1 w2))
                      | None \<Rightarrow>
                         (let w3 = api_get (Get_products productId) w2
                          in case get_products srv productId of
                               Rejected \<Rightarrow> (Inl Network_error, w3)
                             | Resolved data \<Rightarrow>
                                (let (newProduct, w4) =
                                       new_object (catalog_product.extend data
                                                     (product.fields 1)) w3;
                                     w5 = push updatedCart newProduct w4
                                 in (Inr (), setCart updatedCart w5))))))"

definition addProduct :: "api \<Rightarrow> int \<Rightarrow> world \<Rightarrow> (exn + unit) \<times> world" where
  "addProduct srv productId w =
     (case addProduct_try srv productId w of
        (Inl e, w') \<Rightarrow> (Inr (), toast_error Add_failed w')
      | (Inr u, w') \<Rightarrow> (Inr u, w'))"

definition removeProduct_try :: "int \<Rightarrow> world \<Rightarrow> (exn + unit) \<times> world" where
  "removeProduct_try productId w0 =
     (let (updatedCart, w1) = spread (cart w0) w0;
          productIndex = findIndex (\<lambda>product. id' product = productId) updatedCart w1
      in if productIndex \<ge> 0
         then (Inr (), setCart updatedCart (splice1 updatedCart (nat productIndex) w1))
         else (Inl Error, w1))"

definition removeProduct :: "int \<Rightarrow> world \<Rightarrow> (exn + unit) \<times> world" where
  "removeProduct productId w =
     (case removeProduct_try productId w of
        (Inl e, w') \<Rightarrow> (Inr (), toast_error Remove_failed w')
      | (Inr u, w') \<Rightarrow> (Inr u, w'))"

definition updateProductAmount_try ::
    "api \<Rightarrow> int \<Rightarrow> int \<Rightarrow> world \<Rightarrow> (exn + unit) \<times> world" where
  "updateProductAmount_try srv productId amount0 w0 =
     (if amount0 \<le> 0 then (Inr (), w0)
      else
        (let w1 = api_get (Get_stock productId) w0
         in case get_stock srv productId of
              Rejected \<Rightarrow> (Inl Network_error, w1)
            | Resolved Null \<Rightarrow> (Inl Type_error, w1)
            | Resolved (Stock stockAmount) \<Rightarrow>
               (if js_gt amount0 stockAmount then (Inr (), toast_error Out_of_stock w1)
                else
                  (let (updatedCart, w2) = spread (cart w1) w1;
                       productExists =
                         find_js (\<lambda>product. id' product = productId) updatedCart w2
                   in case productExists of
                        Some r \<Rightarrow> (Inr (), setCart updatedCart (set_amount r amount0 w2))
                      | None \<Rightarrow> (Inl Error, w2)))))"

definition updateProductAmount ::
    "api \<Rightarrow> int \<Rightarrow> int \<Rightarrow> world \<Rightarrow> (exn + unit) \<times> world" where
  "updateProductAmount srv productId amount0 w =
     (case updateProductAmount_try srv productId amount0 w of
        (Inl e, w') \<Rightarrow> (Inr (), toast_error Update_failed w')
      | (Inr u, w') \<Rightarrow> (Inr u, w'))"

section \<open>The second copy of the component\<close>

text \<open>
  \<^verbatim>\<open>src/unnamed/part_000\<close> has no effects: \<^verbatim>\<open>setCart\<close> is followed by
  \<^verbatim>\<open>localStorage.setItem\<close> inside the operation, and rendering again changes nothing
  that is modelled here. Its \<^verbatim>\<open>updateProductAmount\<close> has an empty \<^verbatim>\<open>try\<close> and an
  empty \<^verbatim>\<open>catch\<close>.
\<close>

definition setCart_copy :: "ref \<Rightarrow> world \<Rightarrow> world" where
  "setCart_copy a w = w\<lparr>cart := a\<rparr>"

definition addProduct_copy_try :: "api \<Rightarrow> int \<Rightarrow> world \<Rightarrow> (exn + unit) \<times> world" where
  "addProduct_copy_try srv productId w0 =
     (let (updatedCart, w1) = spread (cart w0) w0;
          productExists = find_js (\<lambda>product. id' product = productId) updatedCart w1;
          w2 = api_get (Get_stock productId) w1
      in case get_stock srv productId of
           Rejected \<Rightarrow> (Inl Network_error, w2)
         | Resolved Null \<Rightarrow> (Inl Type_error, w2)
         | Resolved (Stock stockAmount) \<Rightarrow>
            (let currentAmount =
                   (case productExists of Some r \<Rightarrow> amount (objects w2 ! r) | None \<Rightarrow> 0);
                 amount1 = js_add currentAmount 1
             in if js_gt amount1 stockAmount then (Inr (), toast_error Out_of_stock w2)
                else (case productExists of
                        Some r \<Rightarrow>
                         (let w3 = setCart_copy updatedCart (set_amount r amount1 w2)
                          in (Inr (), setItem (JSON_stringify (entries w3 updatedCart)) w3))
                      | None \<Rightarrow>
                         (let w3 = api_get (Get_products productId) w2
                          in case get_products srv productId of
                               Rejected \<Rightarrow> (Inl Network_error, w3)
                             | Resolved data \<Rightarrow>
                                (let (newProduct, w4) =
                                       new_object (catalog_product.extend data
                                                     (product.fields 1)) w3;
                                     w5 = push updatedCart newProduct w4;
                                     w6 = setCart_copy updatedCart w5
                                 in (Inr (),
                                     setItem (JSON_stringify (entries w6 updatedCart)) w6))))))"

definition addProduct_copy :: "api \<Rightarrow> int \<Rightarrow> world \<Rightarrow> (exn + unit) \<times> world" where
  "addProduct_copy srv productId w =
     (case addProduct_copy_try srv productId w of
        (Inl e, w') \<Rightarrow> (Inr (), toast_error Add_failed w')
      | (Inr u, w') \<Rightarrow> (Inr u, w'))"

definition removeProduct_copy_try :: "int \<Rightarrow> world \<Rightarrow> (exn + unit) \<times> world" where
  "removeProduct_copy_try productId w0 =
     (let (updatedCart, w1) = spread (cart w0) w0;
          productIndex = findIndex (\<lambda>product. id' product = productId) updatedCart w1
      in if productIndex \<ge> 0
         then (let w2 = setCart_copy updatedCart (splice1 updatedCart (nat productIndex) w1)
               in (Inr (), setItem (JSON_stringify (entries w2 updatedCart)) w2))
         else (Inl Error, w1))"

definition removeProduct_copy :: "int \<Rightarrow> world \<Rightarrow> (exn + unit) \<times> world" where
  "removeProduct_copy productId w =
     (case removeProduct_copy_try productId w of
        (Inl e, w') \<Rightarrow> (Inr (), toast_error Remove_failed w')
      | (Inr u, w') \<Rightarrow> (Inr u, w'))"

definition updateProductAmount_copy ::
    "api \<Rightarrow> int \<Rightarrow> int \<Rightarrow> world \<Rightarrow> (exn + unit) \<times> world" where
  "updateProductAmount_copy srv productId amount0 w = (Inr (), w)"

text \<open>The two source files, and each operation as the chosen file has it.\<close>

datatype variant = Hooks_useCart | Copy

fun addProduct_of :: "variant \<Rightarrow> api \<Rightarrow> int \<Rightarrow> world \<Rightarrow> (exn + unit) \<times> world" where
  "addProduct_of Hooks_useCart = addProduct"
| "addProduct_of Copy = addProduct_copy"

fun removeProduct_of :: "variant \<Rightarrow> int \<Rightarrow> world \<Rightarrow> (exn + unit) \<times> world" where
  "removeProduct_of Hooks_useCart = removeProduct"
| "removeProduct_of Copy = removeProduct_copy"

fun updateProductAmount_of ::
    "variant \<Rightarrow> api \<Rightarrow> int \<Rightarrow> int \<Rightarrow> world \<Rightarrow> (exn + unit) \<times> world" where
  "updateProductAmount_of Hooks_useCart = updateProductAmount"
| "updateProductAmount_of Copy = updateProductAmount_copy"

section \<open>States the component can be in\<close>

text \<open>
  Between two operations the cart is an allocated array of allocated objects, no object
  is in it twice (parsing and object literals make new objects), the component has
  rendered with the present cart, and the remembered dependencies are allocated arrays.
  Loading establishes this for every stored list (\<open>mount_ready\<close>, \<open>mount_cart_list\<close>)
  and every operation keeps it (\<open>addProduct_ready\<close> and the lemmas after it).
\<close>

definition heap_ok :: "world \<Rightarrow> bool" where
  "heap_ok w \<longleftrightarrow>
     cart w < length (arrays w) \<and>
     list_all (\<lambda>r. r < length (objects w)) (arrays w ! cart w) \<and>
     distinct (arrays w ! cart w)"

definition rendered :: "world \<Rightarrow> bool" where
  "rendered w \<longleftrightarrow>
     prevCartRef w = Some (cart w) \<and>
     (case effect_deps w of
        None \<Rightarrow> False
      | Some (c, p) \<Rightarrow> c < length (arrays w) \<and> p < length (arrays w))"

definition ready :: "world \<Rightarrow> bool" where
  "ready w \<longleftrightarrow> heap_ok w \<and> rendered w"

section \<open>What an operation does to the list of entries\<close>

text \<open>
  The operations work on references; the user sees the list of entries. On lists of
  entries, the first entry that satisfies \<open>p\<close> is changed by \<open>f\<close>, or removed.
\<close>

fun update_first :: "('a \<Rightarrow> bool) \<Rightarrow> ('a \<Rightarrow> 'a) \<Rightarrow> 'a list \<Rightarrow> 'a list" where
  "update_first p f [] = []"
| "update_first p f (x # xs) = (if p x then f x # xs else x # update_first p f xs)"

fun remove_first :: "('a \<Rightarrow> bool) \<Rightarrow> 'a list \<Rightarrow> 'a list" where
  "remove_first p [] = []"
| "remove_first p (x # xs) = (if p x then xs else x # remove_first p xs)"

text \<open>
  The outcome of one call, read off the source branch by branch: the list that is
  committed by \<^verbatim>\<open>setCart\<close> (or \<open>None\<close> where no branch reaches \<^verbatim>\<open>setCart\<close>), the
  toasts shown and the requests sent.
\<close>

type_synonym outcome = "product list option \<times> toast list \<times> request list"

definition addProduct_outcome :: "api \<Rightarrow> int \<Rightarrow> product list \<Rightarrow> outcome" where
  "addProduct_outcome srv productId xs =
     (case get_stock srv productId of
        Rejected \<Rightarrow> (None, [Add_failed], [Get_stock productId])
      | Resolved Null \<Rightarrow> (None, [Add_failed], [Get_stock productId])
      | Resolved (Stock stockAmount) \<Rightarrow>
         (case List.find (\<lambda>product. id' product = productId) xs of
            Some p \<Rightarrow>
             (if js_gt (js_add (amount p) 1) stockAmount
              then (None, [Out_of_stock], [Get_stock productId])
              else (Some (update_first (\<lambda>product. id' product = productId)
                            (\<lambda>product. product\<lparr>amount := js_add (amount p) 1\<rparr>) xs),
                    [], [Get_stock productId]))
          | None \<Rightarrow>
             (if js_gt (js_add 0 1) stockAmount
              then (None, [Out_of_stock], [Get_stock productId])
              else (case get_products srv productId of
                      Rejected \<Rightarrow>
                       (None, [Add_failed], [Get_stock productId, Get_products productId])
                    | Resolved data \<Rightarrow>
                       (Some (xs @ [catalog_product.extend data (product.fields 1)]),
                        [], [Get_stock productId, Get_products productId])))))"

definition removeProduct_outcome :: "int \<Rightarrow> product list \<Rightarrow> outcome" where
  "removeProduct_outcome productId xs =
     (case List.find (\<lambda>product. id' product = productId) xs of
        Some p \<Rightarrow> (Some (remove_first (\<lambda>product. id' product = productId) xs), [], [])
      | None \<Rightarrow> (None, [Remove_failed], []))"

definition updateProductAmount_outcome ::
    "api \<Rightarrow> int \<Rightarrow> int \<Rightarrow> product list \<Rightarrow> outcome" where
  "updateProductAmount_outcome srv productId amount0 xs =
     (if amount0 \<le> 0 then (None, [], [])
      else (case get_stock srv productId of
              Rejected \<Rightarrow> (None, [Update_failed], [Get_stock productId])
            | Resolved Null \<Rightarrow> (None, [Update_failed], [Get_stock productId])
            | Resolved (Stock stockAmount) \<Rightarrow>
               (if js_gt amount0 stockAmount
                then (None, [Out_of_stock], [Get_stock productId])
                else (case List.find (\<lambda>product. id' product = productId) xs of
                        Some p \<Rightarrow>
                         (Some (update_first (\<lambda>product. id' product = productId)
                                  (\<lambda>product. product\<lparr>amount := amount0\<rparr>) xs),
                          [], [Get_stock productId])
                      | None \<Rightarrow> (None, [Update_failed], [Get_stock productId])))))"

text \<open>
  A call from \<open>w\<close> carries an outcome out when it returns normally, shows the toasts,
  sends the requests, and either commits the list (the state holds another array) and
  stores its text with one \<^verbatim>\<open>setItem\<close>, or leaves the state and the store as they were.
\<close>

definition carried_out :: "world \<Rightarrow> outcome \<Rightarrow> (exn + unit) \<times> world \<Rightarrow> bool" where
  "carried_out w out res \<longleftrightarrow>
     (case out of (committed, ts, qs) \<Rightarrow>
        fst res = Inr () \<and>
        toasts (snd res) = toasts w @ ts \<and>
        requests (snd res) = requests w @ qs \<and>
        (case committed of
           None \<Rightarrow>
             cart (snd res) = cart w \<and>
             cart_list (snd res) = cart_list w \<and>
             localStorage (snd res) = localStorage w \<and>
             setItem_calls (snd res) = setItem_calls w
         | Some ys \<Rightarrow>
             cart (snd res) \<noteq> cart w \<and>
             cart_list (snd res) = ys \<and>
             localStorage (snd res) = Some (JSON_stringify ys) \<and>
             setItem_calls (snd res) = setItem_calls w + 1))"

text \<open>
  What has to hold before a call: the full variant relies on its effects having run, the
  copy only on the stores.
\<close>

fun ready_for :: "variant \<Rightarrow> world \<Rightarrow> bool" where
  "ready_for Hooks_useCart w = ready w"
| "ready_for Copy w = heap_ok w"

text \<open>The stub of the copy reaches no branch at all.\<close>

fun updateProductAmount_outcome_of ::
    "variant \<Rightarrow> api \<Rightarrow> int \<Rightarrow> int \<Rightarrow> product list \<Rightarrow> outcome" where
  "updateProductAmount_outcome_of Hooks_useCart = updateProductAmount_outcome"
| "updateProductAmount_outcome_of Copy = (\<lambda>srv productId amount0 xs. (None, [], []))"

section \<open>Example inputs\<close>

text \<open>A cart entry and a catalogue answer for product \<open>i\<close>, and three servers.\<close>

definition shoe :: "int \<Rightarrow> int \<Rightarrow> product" where
  "shoe i n = \<lparr>id' = i, title = ''Tenis'', price = 1799 / 10, image' = ''tenis.jpg'',
              amount = n\<rparr>"

definition catalog_shoe :: "int \<Rightarrow> catalog_product" where
  "catalog_shoe i = \<lparr>id' = i, title = ''Tenis'', price = 1799 / 10, image' = ''tenis.jpg''\<rparr>"

text \<open>A server with \<open>s\<close> units of every product.\<close>

definition shop :: "int \<Rightarrow> api" where
  "shop s = \<lparr>get_stock = (\<lambda>i. Resolved (Stock (Some s))),
            get_products = (\<lambda>i. Resolved (catalog_shoe i))\<rparr>"


text \<open>A server that answers every product request with product 2.\<close>

definition shop_of_one_product :: api where
  "shop_of_one_product = \<lparr>get_stock = (\<lambda>i. Resolved (Stock (Some 5))),
                          get_products = (\<lambda>i. Resolved (catalog_shoe 2))\<rparr>"

text \<open>The component after loading a stored cart.\<close>

definition loaded :: "product list \<Rightarrow> world" where
  "loaded xs = mount (Some (JSON_stringify xs))"

section \<open>Conditions used below\<close>

text \<open>
  \<^verbatim>\<open>productExists ? productExists.amount : 0\<close>, read off the list of entries: the
  amount of the first entry with the id, or 0.
\<close>

definition currentAmount :: "int \<Rightarrow> product list \<Rightarrow> int" where
  "currentAmount productId xs =
     (case List.find (\<lambda>product. id' product = productId) xs of
        Some p \<Rightarrow> amount p
      | None \<Rightarrow> 0)"

text \<open>
  The product request, where it resolves, answers with the product asked for, or at least
  with an id that no entry of the list has.
\<close>

definition answers_with_new_id :: "api \<Rightarrow> int \<Rightarrow> product list \<Rightarrow> bool" where
  "answers_with_new_id srv productId xs =
     (case get_products srv productId of
        Rejected \<Rightarrow> True
      | Resolved data \<Rightarrow> id' data = productId \<or> id' data \<notin> set (map id' xs))"

text \<open>
  How the store follows the state between \<open>w\<close> and \<open>w'\<close>: where the state holds another
  array, the stored text is that of the new list and one \<^verbatim>\<open>setItem\<close> was made; where it
  holds the same array, the list, the stored text and the number of \<^verbatim>\<open>setItem\<close> calls
  are as before; and a toast is only shown where the state holds the same array.
\<close>

definition written_iff_committed :: "world \<Rightarrow> world \<Rightarrow> bool" where
  "written_iff_committed w w' \<longleftrightarrow>
     (cart w' \<noteq> cart w \<longrightarrow>
        localStorage w' = Some (JSON_stringify (cart_list w')) \<and>
        setItem_calls w' = setItem_calls w + 1) \<and>
     (cart w' = cart w \<longrightarrow>
        cart_list w' = cart_list w \<and>
        localStorage w' = localStorage w \<and>
        setItem_calls w' = setItem_calls w) \<and>
     (toasts w' \<noteq> toasts w \<longrightarrow> cart w' = cart w)"

section \<open>Addition\<close>

lemma excess_small: "m < 2 ^ 53 \<Longrightarrow> excess m = 0"
  by (simp add: excess.simps)

lemma round_double_small: "0 \<le> m \<Longrightarrow> m \<le> 2 ^ 53 \<Longrightarrow> round_double m = m"
proof (cases "m < 2 ^ 53")
  case True
  then show ?thesis by (simp add: round_double_def excess_small)
next
  case False
  assume "m \<le> 2 ^ 53"
  with False have m: "m = 2 ^ 53" by simp
  have "excess (2 ^ 53) = Suc 0"
    by (simp add: excess.simps)
  then show ?thesis unfolding m by (simp add: round_double_def)
qed

lemma js_add_exact: "\<bar>a + b\<bar> \<le> 2 ^ 53 \<Longrightarrow> js_add a b = a + b"
proof -
  assume "\<bar>a + b\<bar> \<le> 2 ^ 53"
  then have "round_double \<bar>a + b\<bar> = \<bar>a + b\<bar>" by (simp add: round_double_small)
  then show ?thesis by (simp add: js_add_def sgn_if)
qed

lemma js_add_0_1: "js_add 0 1 = 1"
  by (simp add: js_add_exact)

text \<open>At \<open>2 ^ 53 = 9007199254740992\<close> adding 1 changes nothing.\<close>

lemma js_add_2_53: "js_add 9007199254740992 1 = 9007199254740992"
  by (simp add: js_add_def round_double_def excess.simps)

section \<open>Lists and stores\<close>

lemma find_map_store:
  "map_option g (List.find (\<lambda>r. p (g r)) a) = List.find p (map g a)"
  by (induction a) auto

lemma find_in_set: "List.find q a = Some r \<Longrightarrow> r \<in> set a \<and> q r"
  by (induction a) (auto split: if_splits)

lemma map_store_update_first:
  "distinct a \<Longrightarrow> List.find (\<lambda>r. p (s ! r)) a = Some r \<Longrightarrow> \<forall>x \<in> set a. x < length s \<Longrightarrow>
   map (\<lambda>x. s[r := f (s ! r)] ! x) a = update_first p f (map (\<lambda>x. s ! x) a)"
proof (induction a)
  case Nil
  then show ?case by simp
next
  case (Cons x a)
  show ?case
  proof (cases "p (s ! x)")
    case True
    with Cons.prems have "r = x" by simp
    moreover from Cons.prems have "x \<notin> set a" by simp
    then have "map (\<lambda>y. s[x := f (s ! x)] ! y) a = map (\<lambda>y. s ! y) a"
    proof (intro map_cong refl)
      fix y assume "y \<in> set a"
      with \<open>x \<notin> set a\<close> have "x \<noteq> y" by auto
      then show "s[x := f (s ! x)] ! y = s ! y" by simp
    qed
    ultimately show ?thesis using True Cons.prems by simp
  next
    case False
    with Cons.prems have fnd: "List.find (\<lambda>r. p (s ! r)) a = Some r" by simp
    then have "r \<in> set a" by (simp add: find_in_set)
    with Cons.prems have "r \<noteq> x" by auto
    with False Cons fnd show ?thesis by simp
  qed
qed

lemma findIndex_list_range: "- 1 \<le> findIndex_list q a \<and> findIndex_list q a < int (length a)"
  by (induction a) (auto simp: Let_def)

lemma findIndex_list_neg: "findIndex_list q a < 0 \<longleftrightarrow> List.find q a = None"
  using findIndex_list_range [of q]
  by (induction a) (auto simp: Let_def)

lemma findIndex_list_splice:
  "0 \<le> findIndex_list (\<lambda>r. p (g r)) a \<Longrightarrow>
   map g (take (nat (findIndex_list (\<lambda>r. p (g r)) a)) a
          @ drop (nat (findIndex_list (\<lambda>r. p (g r)) a) + 1) a) = remove_first p (map g a)"
proof (induction a)
  case Nil
  then show ?case by simp
next
  case (Cons x a)
  show ?case
  proof (cases "p (g x)")
    case True
    then show ?thesis by simp
  next
    case False
    with Cons.prems have nn: "0 \<le> findIndex_list (\<lambda>r. p (g r)) a"
      by (simp add: Let_def split: if_splits)
    then have "nat (findIndex_list (\<lambda>r. p (g r)) a + 1) = Suc (nat (findIndex_list (\<lambda>r. p (g r)) a))"
      by simp
    with False nn Cons.IH show ?thesis by (simp add: Let_def)
  qed
qed


lemma distinct_splice: "distinct a \<Longrightarrow> distinct (take i a @ drop (Suc i) a)"
proof -
  assume d: "distinct a"
  then have "set (take i a) \<inter> set (drop (Suc i) a) = {}"
    by (rule set_take_disj_set_drop_if_distinct) simp
  with d show ?thesis by simp
qed

lemma set_splice: "x \<in> set (take i a @ drop (Suc i) a) \<Longrightarrow> x \<in> set a"
  by (auto dest: in_set_takeD in_set_dropD)

lemma addProduct_refines:
  assumes "ready w"
  shows "carried_out w (addProduct_outcome srv pid (cart_list w)) (addProduct srv pid w)"
proof -
  let ?a = "arrays w ! cart w"
  let ?s = "objects w"
  from assms have c: "cart w < length (arrays w)" and v: "\<forall>x \<in> set ?a. x < length ?s"
    and d: "distinct ?a" and pr: "prevCartRef w = Some (cart w)"
    by (auto simp: ready_def heap_ok_def rendered_def list_all_iff)
  from assms obtain c0 p0 where ed: "effect_deps w = Some (c0, p0)" "c0 < length (arrays w)"
    by (auto simp: ready_def rendered_def split: option.splits)
  have fm: "List.find (\<lambda>product. id' product = pid) (cart_list w) =
            map_option (\<lambda>r. ?s ! r) (List.find (\<lambda>r. id' (?s ! r) = pid) ?a)"
    using find_map_store [of "\<lambda>r. ?s ! r" "\<lambda>product. id' product = pid" ?a]
    by (simp add: cart_list_def entries_def)
  show ?thesis
    using c v d pr ed fm
    apply (auto simp: carried_out_def addProduct_outcome_def addProduct_def addProduct_try_def
       spread_def find_js_def api_get_def toast_error_def setCart_def render_def set_amount_def
       setItem_def cart_list_def entries_def new_object_def push_def Let_def nth_append
       map_store_update_first
       split: response.splits stock_data.splits option.splits prod.splits)
    done
qed

lemma addProduct_ready:
  assumes "ready w"
  shows "ready (snd (addProduct srv pid w))"
proof -
  let ?a = "arrays w ! cart w"
  let ?s = "objects w"
  from assms have c: "cart w < length (arrays w)" and v: "\<forall>x \<in> set ?a. x < length ?s"
    and d: "distinct ?a" and pr: "prevCartRef w = Some (cart w)"
    by (auto simp: ready_def heap_ok_def rendered_def list_all_iff)
  from assms obtain c0 p0 where ed: "effect_deps w = Some (c0, p0)" "c0 < length (arrays w)"
      "p0 < length (arrays w)"
    by (auto simp: ready_def rendered_def split: option.splits)
  show ?thesis
    using c v d pr ed
    by (auto simp: ready_def heap_ok_def rendered_def list_all_iff addProduct_def addProduct_try_def
       spread_def find_js_def api_get_def toast_error_def setCart_def render_def set_amount_def
       setItem_def new_object_def push_def Let_def nth_append
       split: response.splits stock_data.splits option.splits prod.splits)
qed

lemma removeProduct_refines:
  assumes "ready w"
  shows "carried_out w (removeProduct_outcome pid (cart_list w)) (removeProduct pid w)"
proof -
  let ?a = "arrays w ! cart w"
  let ?s = "objects w"
  let ?i = "findIndex_list (\<lambda>r. id' (?s ! r) = pid) ?a"
  from assms have c: "cart w < length (arrays w)" and pr: "prevCartRef w = Some (cart w)"
    by (auto simp: ready_def heap_ok_def rendered_def list_all_iff)
  from assms obtain c0 p0 where ed: "effect_deps w = Some (c0, p0)" "c0 < length (arrays w)"
    by (auto simp: ready_def rendered_def split: option.splits)
  have fm: "List.find (\<lambda>product. id' product = pid) (cart_list w) =
            map_option (\<lambda>r. ?s ! r) (List.find (\<lambda>r. id' (?s ! r) = pid) ?a)"
    using find_map_store [of "\<lambda>r. ?s ! r" "\<lambda>product. id' product = pid" ?a]
    by (simp add: cart_list_def entries_def)
  have neg: "?i < 0 \<longleftrightarrow> List.find (\<lambda>r. id' (?s ! r) = pid) ?a = None"
    by (rule findIndex_list_neg)
  have sp: "0 \<le> ?i \<Longrightarrow>
     map (\<lambda>r. ?s ! r) (take (nat ?i) ?a @ drop (nat ?i + 1) ?a)
     = remove_first (\<lambda>product. id' product = pid) (cart_list w)"
    using findIndex_list_splice [of "\<lambda>product. id' product = pid" "\<lambda>r. ?s ! r" ?a]
    by (simp add: cart_list_def entries_def)
  show ?thesis
  proof (cases "0 \<le> ?i")
    case True
    with neg obtain r where "List.find (\<lambda>r. id' (?s ! r) = pid) ?a = Some r" by fastforce
    with True c pr ed fm sp [OF True] show ?thesis
      by (simp add: carried_out_def removeProduct_outcome_def removeProduct_def
          removeProduct_try_def spread_def findIndex_def setCart_def render_def splice1_def
          setItem_def cart_list_def entries_def Let_def nth_append)
  next
    case False
    with neg have "List.find (\<lambda>r. id' (?s ! r) = pid) ?a = None" by simp
    with False c fm show ?thesis
      by (simp add: carried_out_def removeProduct_outcome_def removeProduct_def
          removeProduct_try_def spread_def findIndex_def toast_error_def
          cart_list_def entries_def Let_def nth_append)
  qed
qed

lemma removeProduct_ready:
  assumes "ready w"
  shows "ready (snd (removeProduct pid w))"
proof -
  let ?a = "arrays w ! cart w"
  let ?s = "objects w"
  from assms have c: "cart w < length (arrays w)" and v: "\<forall>x \<in> set ?a. x < length ?s"
    and d: "distinct ?a" and pr: "prevCartRef w = Some (cart w)"
    by (auto simp: ready_def heap_ok_def rendered_def list_all_iff)
  from assms obtain c0 p0 where ed: "effect_deps w = Some (c0, p0)" "c0 < length (arrays w)"
      "p0 < length (arrays w)"
    by (auto simp: ready_def rendered_def split: option.splits)
  show ?thesis
    using c v d pr ed
    by (auto simp: ready_def heap_ok_def rendered_def list_all_iff removeProduct_def
       removeProduct_try_def spread_def findIndex_def toast_error_def setCart_def render_def
       splice1_def setItem_def Let_def nth_append
       simp del: distinct_append set_append
       intro!: distinct_splice dest!: set_splice)
qed

lemma updateProductAmount_refines:
  assumes "ready w"
  shows "carried_out w (updateProductAmount_outcome srv pid amt (cart_list w))
           (updateProductAmount srv pid amt w)"
proof -
  let ?a = "arrays w ! cart w"
  let ?s = "objects w"
  from assms have c: "cart w < length (arrays w)" and v: "\<forall>x \<in> set ?a. x < length ?s"
    and d: "distinct ?a" and pr: "prevCartRef w = Some (cart w)"
    by (auto simp: ready_def heap_ok_def rendered_def list_all_iff)
  from assms obtain c0 p0 where ed: "effect_deps w = Some (c0, p0)" "c0 < length (arrays w)"
    by (auto simp: ready_def rendered_def split: option.splits)
  have fm: "List.find (\<lambda>product. id' product = pid) (cart_list w) =
            map_option (\<lambda>r. ?s ! r) (List.find (\<lambda>r. id' (?s ! r) = pid) ?a)"
    using find_map_store [of "\<lambda>r. ?s ! r" "\<lambda>product. id' product = pid" ?a]
    by (simp add: cart_list_def entries_def)
  show ?thesis
    using c v d pr ed fm
    by (auto simp: carried_out_def updateProductAmount_outcome_def updateProductAmount_def
       updateProductAmount_try_def
       spread_def find_js_def api_get_def toast_error_def setCart_def render_def set_amount_def
       setItem_def cart_list_def entries_def Let_def nth_append
       map_store_update_first
       split: response.splits stock_data.splits option.splits prod.splits)
qed

lemma updateProductAmount_ready:
  assumes "ready w"
  shows "ready (snd (updateProductAmount srv pid amt w))"
proof -
  let ?a = "arrays w ! cart w"
  let ?s = "objects w"
  from assms have c: "cart w < length (arrays w)" and v: "\<forall>x \<in> set ?a. x < length ?s"
    and d: "distinct ?a" and pr: "prevCartRef w = Some (cart w)"
    by (auto simp: ready_def heap_ok_def rendered_def list_all_iff)
  from assms obtain c0 p0 where ed: "effect_deps w = Some (c0, p0)" "c0 < length (arrays w)"
      "p0 < length (arrays w)"
    by (auto simp: ready_def rendered_def split: option.splits)
  show ?thesis
    using c v d pr ed
    by (auto simp: ready_def heap_ok_def rendered_def list_all_iff updateProductAmount_def
       updateProductAmount_try_def
       spread_def find_js_def api_get_def toast_error_def setCart_def render_def set_amount_def
       setItem_def Let_def nth_append
       split: response.splits stock_data.splits option.splits prod.splits)
qed


lemma addProduct_copy_refines:
  assumes "heap_ok w"
  shows "carried_out w (addProduct_outcome srv pid (cart_list w)) (addProduct_copy srv pid w)"
proof -
  let ?a = "arrays w ! cart w"
  let ?s = "objects w"
  from assms have c: "cart w < length (arrays w)" and v: "\<forall>x \<in> set ?a. x < length ?s"
    and d: "distinct ?a"
    by (auto simp: heap_ok_def list_all_iff)
  have fm: "List.find (\<lambda>product. id' product = pid) (cart_list w) =
            map_option (\<lambda>r. ?s ! r) (List.find (\<lambda>r. id' (?s ! r) = pid) ?a)"
    using find_map_store [of "\<lambda>r. ?s ! r" "\<lambda>product. id' product = pid" ?a]
    by (simp add: cart_list_def entries_def)
  show ?thesis
    using c v d fm
    by (auto simp: carried_out_def addProduct_outcome_def addProduct_copy_def
       addProduct_copy_try_def setCart_copy_def
       spread_def find_js_def api_get_def toast_error_def set_amount_def
       setItem_def cart_list_def entries_def new_object_def push_def Let_def nth_append
       map_store_update_first
       split: response.splits stock_data.splits option.splits prod.splits)
qed

lemma addProduct_copy_heap_ok:
  assumes "heap_ok w"
  shows "heap_ok (snd (addProduct_copy srv pid w))"
proof -
  let ?a = "arrays w ! cart w"
  let ?s = "objects w"
  from assms have c: "cart w < length (arrays w)" and v: "\<forall>x \<in> set ?a. x < length ?s"
    and d: "distinct ?a"
    by (auto simp: heap_ok_def list_all_iff)
  show ?thesis
    using c v d
    by (auto simp: heap_ok_def list_all_iff addProduct_copy_def addProduct_copy_try_def
       setCart_copy_def
       spread_def find_js_def api_get_def toast_error_def set_amount_def
       setItem_def new_object_def push_def Let_def nth_append
       split: response.splits stock_data.splits option.splits prod.splits)
qed

lemma removeProduct_copy_refines:
  assumes "heap_ok w"
  shows "carried_out w (removeProduct_outcome pid (cart_list w)) (removeProduct_copy pid w)"
proof -
  let ?a = "arrays w ! cart w"
  let ?s = "objects w"
  let ?i = "findIndex_list (\<lambda>r. id' (?s ! r) = pid) ?a"
  from assms have c: "cart w < length (arrays w)"
    by (auto simp: heap_ok_def)
  have fm: "List.find (\<lambda>product. id' product = pid) (cart_list w) =
            map_option (\<lambda>r. ?s ! r) (List.find (\<lambda>r. id' (?s ! r) = pid) ?a)"
    using find_map_store [of "\<lambda>r. ?s ! r" "\<lambda>product. id' product = pid" ?a]
    by (simp add: cart_list_def entries_def)
  have neg: "?i < 0 \<longleftrightarrow> List.find (\<lambda>r. id' (?s ! r) = pid) ?a = None"
    by (rule findIndex_list_neg)
  have sp: "0 \<le> ?i \<Longrightarrow>
     map (\<lambda>r. ?s ! r) (take (nat ?i) ?a @ drop (nat ?i + 1) ?a)
     = remove_first (\<lambda>product. id' product = pid) (cart_list w)"
    using findIndex_list_splice [of "\<lambda>product. id' product = pid" "\<lambda>r. ?s ! r" ?a]
    by (simp add: cart_list_def entries_def)
  show ?thesis
  proof (cases "0 \<le> ?i")
    case True
    with neg obtain r where "List.find (\<lambda>r. id' (?s ! r) = pid) ?a = Some r" by fastforce
    with True c fm sp [OF True] show ?thesis
      by (simp add: carried_out_def removeProduct_outcome_def removeProduct_copy_def
          removeProduct_copy_try_def spread_def findIndex_def setCart_copy_def splice1_def
          setItem_def cart_list_def entries_def Let_def nth_append)
  next
    case False
    with neg have "List.find (\<lambda>r. id' (?s ! r) = pid) ?a = None" by simp
    with False c fm show ?thesis
      by (simp add: carried_out_def removeProduct_outcome_def removeProduct_copy_def
          removeProduct_copy_try_def spread_def findIndex_def toast_error_def
          cart_list_def entries_def Let_def nth_append)
  qed
qed

lemma removeProduct_copy_heap_ok:
  assumes "heap_ok w"
  shows "heap_ok (snd (removeProduct_copy pid w))"
proof -
  let ?a = "arrays w ! cart w"
  let ?s = "objects w"
  from assms have c: "cart w < length (arrays w)" and v: "\<forall>x \<in> set ?a. x < length ?s"
    and d: "distinct ?a"
    by (auto simp: heap_ok_def list_all_iff)
  show ?thesis
    using c v d
    by (auto simp: heap_ok_def list_all_iff removeProduct_copy_def
       removeProduct_copy_try_def spread_def findIndex_def toast_error_def setCart_copy_def
       splice1_def setItem_def Let_def nth_append
       simp del: distinct_append set_append
       intro!: distinct_splice dest!: set_splice)
qed

lemma mount_ready: "ready (mount s)"
  by (cases s)
     (auto simp: mount_def useState_init_def render_def ready_def heap_ok_def rendered_def
        list_all_iff Let_def)

lemma mount_cart_list:
  "cart_list (mount s) = (case s of None \<Rightarrow> [] | Some t \<Rightarrow> JSON_parse t)"
  by (cases s)
     (auto simp: mount_def useState_init_def render_def cart_list_def entries_def Let_def
        map_nth)

lemma mount_storage: "localStorage (mount s) = s \<and> setItem_calls (mount s) = 0"
  by (cases s) (auto simp: mount_def useState_init_def render_def Let_def)

subsection \<open>Either variant\<close>

lemma addProduct_of_refines:
  "ready_for v w \<Longrightarrow>
   carried_out w (addProduct_outcome srv pid (cart_list w)) (addProduct_of v srv pid w)"
  by (cases v) (simp_all add: addProduct_refines addProduct_copy_refines)

lemma removeProduct_of_refines:
  "ready_for v w \<Longrightarrow>
   carried_out w (removeProduct_outcome pid (cart_list w)) (removeProduct_of v pid w)"
  by (cases v) (simp_all add: removeProduct_refines removeProduct_copy_refines)

lemma updateProductAmount_of_refines:
  assumes "ready_for v w"
  shows "carried_out w (updateProductAmount_outcome_of v srv pid amt (cart_list w))
           (updateProductAmount_of v srv pid amt w)"
proof (cases v)
  case Hooks_useCart
  with assms show ?thesis by (simp add: updateProductAmount_refines)
next
  case Copy
  then show ?thesis by (simp add: updateProductAmount_copy_def carried_out_def)
qed

lemma addProduct_of_ready: "ready_for v w \<Longrightarrow> ready_for v (snd (addProduct_of v srv pid w))"
  by (cases v) (simp_all add: addProduct_ready addProduct_copy_heap_ok)

lemma removeProduct_of_ready: "ready_for v w \<Longrightarrow> ready_for v (snd (removeProduct_of v pid w))"
  by (cases v) (simp_all add: removeProduct_ready removeProduct_copy_heap_ok)

lemma updateProductAmount_of_ready:
  "ready_for v w \<Longrightarrow> ready_for v (snd (updateProductAmount_of v srv pid amt w))"
  by (cases v) (simp_all add: updateProductAmount_ready updateProductAmount_copy_def)

subsection \<open>Lists of entries\<close>

lemma find_first_decomp:
  "\<forall>x \<in> set xs. \<not> p x \<Longrightarrow> p y \<Longrightarrow> List.find p (xs @ y # ys) = Some y"
  by (induction xs) auto

lemma update_first_decomp:
  "\<forall>x \<in> set xs. \<not> p x \<Longrightarrow> p y \<Longrightarrow> update_first p f (xs @ y # ys) = xs @ f y # ys"
  by (induction xs) auto

lemma remove_first_decomp:
  "\<forall>x \<in> set xs. \<not> p x \<Longrightarrow> p y \<Longrightarrow> remove_first p (xs @ y # ys) = xs @ ys"
  by (induction xs) auto

lemma absent_key: "k \<notin> set (map f xs) \<Longrightarrow> \<forall>x \<in> set xs. f x \<noteq> k"
  by (induction xs) auto

lemma find_absent: "\<forall>x \<in> set xs. \<not> p x \<Longrightarrow> List.find p xs = None"
  by (induction xs) auto

lemma loaded_eval:
  "loaded xs = \<lparr>objects = xs, arrays = [[0..<length xs]], cart = 0,
          prevCartRef = Some 0, effect_deps = Some (0, 0),
          localStorage = Some (JSON_stringify xs), setItem_calls = 0,
          requests = [], toasts = []\<rparr>"
  by (simp add: loaded_def mount_def useState_init_def render_def Let_def)


lemma ready_loaded: "ready (loaded xs)"
  by (simp add: loaded_def mount_ready)

lemma cart_list_loaded: "cart_list (loaded xs) = xs"
  by (simp add: loaded_def mount_cart_list)

lemma extend_fields:
  "catalog_product.extend d (product.fields n) =
     \<lparr>id' = id' d, title = title d, price = price d, image' = image' d, amount = n\<rparr>"
  by (cases d) (simp add: catalog_product.defs product.defs)

lemma map_key_update_first:
  "(\<And>x. k (f x) = k x) \<Longrightarrow> map k (update_first p f xs) = map k xs"
  by (induction xs) auto

lemma set_remove_first: "set (remove_first p xs) \<subseteq> set xs"
  by (induction xs) auto

lemma distinct_map_remove_first:
  "distinct (map k xs) \<Longrightarrow> distinct (map k (remove_first p xs))"
proof (induction xs)
  case Nil
  then show ?case by simp
next
  case (Cons x xs)
  have "k ` set (remove_first p xs) \<subseteq> k ` set xs"
    using set_remove_first [of p xs] by blast
  with Cons show ?case by auto
qed

lemma addProduct_outcome_toast:
  "fst (snd (addProduct_outcome srv pid xs)) \<noteq> [] \<Longrightarrow> fst (addProduct_outcome srv pid xs) = None"
  by (auto simp: addProduct_outcome_def
      split: response.splits stock_data.splits option.splits if_splits)

lemma removeProduct_outcome_toast:
  "fst (snd (removeProduct_outcome pid xs)) \<noteq> [] \<Longrightarrow> fst (removeProduct_outcome pid xs) = None"
  by (auto simp: removeProduct_outcome_def split: option.splits)

lemma updateProductAmount_outcome_of_toast:
  "fst (snd (updateProductAmount_outcome_of v srv pid amt xs)) \<noteq> [] \<Longrightarrow>
   fst (updateProductAmount_outcome_of v srv pid amt xs) = None"
  by (cases v)
     (auto simp: updateProductAmount_outcome_def
      split: response.splits stock_data.splits option.splits if_splits)


lemma carried_out_store:
  assumes "carried_out w out res"
  shows "(cart (snd res) \<noteq> cart w \<longrightarrow>
            localStorage (snd res) = Some (JSON_stringify (cart_list (snd res))) \<and>
            setItem_calls (snd res) = setItem_calls w + 1) \<and>
         (cart (snd res) = cart w \<longrightarrow>
            cart_list (snd res) = cart_list w \<and>
            localStorage (snd res) = localStorage w \<and>
            setItem_calls (snd res) = setItem_calls w)"
  using assms by (auto simp: carried_out_def split: option.splits)

lemma carried_out_toast_state:
  assumes "carried_out w out res" and "fst (snd out) \<noteq> [] \<Longrightarrow> fst out = None"
  shows "toasts (snd res) \<noteq> toasts w \<longrightarrow> cart (snd res) = cart w"
proof -
  obtain c ts qs where out: "out = (c, ts, qs)" by (cases out) auto
  show ?thesis
  proof (cases "ts = []")
    case True
    with assms(1) out show ?thesis by (simp add: carried_out_def)
  next
    case False
    with assms(2) out have "c = None" by simp
    with assms(1) out show ?thesis by (simp add: carried_out_def)
  qed
qed

lemma carried_out_same:
  assumes "carried_out w1 out r1" and "carried_out w2 out r2"
    and "toasts w1 = toasts w2" and "localStorage w1 = localStorage w2"
    and "cart_list w1 = cart_list w2"
  shows "fst r1 = fst r2 \<and> cart_list (snd r1) = cart_list (snd r2) \<and>
         toasts (snd r1) = toasts (snd r2) \<and> localStorage (snd r1) = localStorage (snd r2)"
  using assms by (auto simp: carried_out_def split: option.splits)

text \<open>The definitions a concrete run unfolds.\<close>

lemmas run_defs =
  addProduct_def addProduct_try_def removeProduct_def removeProduct_try_def
  updateProductAmount_def updateProductAmount_try_def
  addProduct_copy_def addProduct_copy_try_def removeProduct_copy_def removeProduct_copy_try_def
  updateProductAmount_copy_def setCart_def setCart_copy_def render_def
  spread_def find_js_def findIndex_def splice1_def push_def new_object_def set_amount_def
  toast_error_def api_get_def setItem_def cart_list_def entries_def Let_def js_add_exact

section \<open>Adding a product\<close>

text \<open>
  Claim C2 says that \<^verbatim>\<open>addProduct\<close> takes the amount \<open>a\<close> of an entry to \<open>a + 1\<close>
  for every cart. The code adds numbers: from \<open>2 ^ 53\<close> on, \<open>a + 1\<close> is no double
  and the sum rounds. With amount \<open>2 ^ 53\<close> and \<open>2 ^ 53 + 2\<close> in stock the list is
  committed and stored with the amount still \<open>2 ^ 53\<close>; with \<open>2 ^ 53\<close> in stock, where
  \<open>a + 1\<close> exceeds the stock, no out-of-stock toast is shown.
\<close>

theorem addProduct_amount_2_53_counterexample:
  "cart_list (loaded [shoe 1 (2 ^ 53)]) = [shoe 1 (2 ^ 53)] \<and>
   amount (shoe 1 (2 ^ 53)) + 1 \<le> 2 ^ 53 + 2 \<and>
   cart_list (snd (addProduct (shop (2 ^ 53 + 2)) 1 (loaded [shoe 1 (2 ^ 53)])))
     = [shoe 1 (2 ^ 53)] \<and>
   cart_list (snd (addProduct (shop (2 ^ 53 + 2)) 1 (loaded [shoe 1 (2 ^ 53)])))
     \<noteq> [shoe 1 (2 ^ 53 + 1)] \<and>
   setItem_calls (snd (addProduct (shop (2 ^ 53 + 2)) 1 (loaded [shoe 1 (2 ^ 53)]))) = 1 \<and>
   amount (shoe 1 (2 ^ 53)) + 1 > 2 ^ 53 \<and>
   toasts (snd (addProduct (shop (2 ^ 53)) 1 (loaded [shoe 1 (2 ^ 53)]))) = []"
  by (simp add: loaded_eval run_defs shop_def shoe_def js_add_2_53)

text \<open>
  Claim C2, amended. The cart holds an entry with the given product id, its first such
  entry has amount \<open>a\<close> with \<open>- (2 ^ 53) \<le> a < 2 ^ 53\<close>, and the stock request answers
  with the amount \<open>s\<close>. When \<open>a + 1 \<le> s\<close>, \<^verbatim>\<open>addProduct\<close> sets that entry's amount to
  \<open>a + 1\<close> and leaves every other entry as it was, without a toast; when \<open>a + 1 > s\<close>,
  the list stays as it was and the out-of-stock toast is shown. This holds in both source
  files.
\<close>

theorem addProduct_existing_entry:
  assumes "ready_for v w"
    and "cart_list w = xs @ p # ys"
    and "productId \<notin> set (map id' xs)"
    and "id' p = productId"
    and "amount p = a"
    and "- (2 ^ 53) \<le> a"
    and "a < 2 ^ 53"
    and "get_stock srv productId = Resolved (Stock (Some s))"
  shows "(a + 1 \<le> s \<longrightarrow>
            cart_list (snd (addProduct_of v srv productId w)) = xs @ p\<lparr>amount := a + 1\<rparr> # ys \<and>
            toasts (snd (addProduct_of v srv productId w)) = toasts w) \<and>
         (a + 1 > s \<longrightarrow>
            cart_list (snd (addProduct_of v srv productId w)) = cart_list w \<and>
            toasts (snd (addProduct_of v srv productId w)) = toasts w @ [Out_of_stock])"
proof -
  let ?P = "\<lambda>product. id' product = productId"
  from assms(3) have nx: "\<forall>x \<in> set xs. \<not> ?P x" by (rule absent_key)
  with assms(2,4) have f: "List.find ?P (cart_list w) = Some p"
    by (simp add: find_first_decomp)
  from assms(2,4) nx have u: "update_first ?P g (cart_list w) = xs @ g p # ys" for g
    by (simp add: update_first_decomp)
  from assms(5,6,7) have e: "js_add (amount p) 1 = a + 1"
    by (simp add: js_add_exact)
  from assms(1) have "carried_out w (addProduct_outcome srv productId (cart_list w))
      (addProduct_of v srv productId w)"
    by (rule addProduct_of_refines)
  with f u e assms(8) show ?thesis
    by (auto simp: carried_out_def addProduct_outcome_def)
qed

theorem addProduct_existing_entry_witness:
  "ready_for Copy (loaded [shoe 1 1, shoe 2 2]) \<and>
   cart_list (loaded [shoe 1 1, shoe 2 2]) = [shoe 1 1] @ shoe 2 2 # [] \<and>
   2 \<notin> set (map id' [shoe 1 1]) \<and> id' (shoe 2 2) = 2 \<and> amount (shoe 2 2) = 2 \<and>
   - (2 ^ 53) \<le> (2::int) \<and> (2::int) < 2 ^ 53 \<and>
   get_stock (shop 5) 2 = Resolved (Stock (Some 5)) \<and>
   cart_list (snd (addProduct_of Copy (shop 5) 2 (loaded [shoe 1 1, shoe 2 2])))
     = [shoe 1 1, shoe 2 3]"
proof -
  have h1: "ready_for Copy (loaded [shoe 1 1, shoe 2 2])"
    by (simp add: loaded_eval heap_ok_def)
  have h2: "cart_list (loaded [shoe 1 1, shoe 2 2]) = [shoe 1 1] @ shoe 2 2 # []"
    by (simp add: loaded_eval cart_list_def entries_def)
  have h3: "2 \<notin> set (map id' [shoe 1 1])" by (simp add: shoe_def)
  have h4: "id' (shoe 2 2) = 2" by (simp add: shoe_def)
  have h5: "amount (shoe 2 2) = 2" by (simp add: shoe_def)
  have h6: "- (2 ^ 53) \<le> (2::int)" by simp
  have h7: "(2::int) < 2 ^ 53" by simp
  have h8: "get_stock (shop 5) 2 = Resolved (Stock (Some 5))" by (simp add: shop_def)
  from addProduct_existing_entry [OF h1 h2 h3 h4 h5 h6 h7 h8] h1 h2 h3 h4 h5 h8
  show ?thesis by (simp add: shoe_def)
qed

text \<open>
  Claim C3. The cart holds no entry with the given product id, the stock request answers
  with an amount of at least 1 and the product request resolves. Then \<^verbatim>\<open>addProduct\<close>
  puts one new entry at the end of the list, made of the answer's fields and amount 1; the
  entries that were there keep their order and content. This holds in both source files.
\<close>

theorem addProduct_new_entry:
  assumes "ready_for v w"
    and "productId \<notin> set (map id' (cart_list w))"
    and "get_stock srv productId = Resolved (Stock (Some s))"
    and "1 \<le> s"
    and "get_products srv productId = Resolved data"
  shows "cart_list (snd (addProduct_of v srv productId w)) =
           cart_list w @ [\<lparr>id' = id' data, title = title data, price = price data,
                            image' = image' data, amount = 1\<rparr>] \<and>
         toasts (snd (addProduct_of v srv productId w)) = toasts w"
proof -
  from assms(2) have "\<forall>x \<in> set (cart_list w). id' x \<noteq> productId" by (rule absent_key)
  then have f: "List.find (\<lambda>product. id' product = productId) (cart_list w) = None"
    by (simp add: find_absent)
  from assms(1) have "carried_out w (addProduct_outcome srv productId (cart_list w))
      (addProduct_of v srv productId w)"
    by (rule addProduct_of_refines)
  with f assms(3,4,5) show ?thesis
    by (simp add: carried_out_def addProduct_outcome_def extend_fields js_add_0_1)
qed

theorem addProduct_new_entry_witness:
  "ready_for Hooks_useCart (loaded [shoe 1 5]) \<and>
   3 \<notin> set (map id' (cart_list (loaded [shoe 1 5]))) \<and>
   get_stock (shop 5) 3 = Resolved (Stock (Some 5)) \<and> (1::int) \<le> 5 \<and>
   get_products (shop 5) 3 = Resolved (catalog_shoe 3) \<and>
   cart_list (snd (addProduct_of Hooks_useCart (shop 5) 3 (loaded [shoe 1 5])))
     = [shoe 1 5, shoe 3 1]"
proof -
  have h1: "ready_for Hooks_useCart (loaded [shoe 1 5])"
    by (simp add: loaded_eval ready_def heap_ok_def rendered_def)
  have c: "cart_list (loaded [shoe 1 5]) = [shoe 1 5]"
    by (simp add: loaded_eval cart_list_def entries_def)
  have h2: "3 \<notin> set (map id' (cart_list (loaded [shoe 1 5])))"
    unfolding c by (simp add: shoe_def)
  have h3: "get_stock (shop 5) 3 = Resolved (Stock (Some 5))" by (simp add: shop_def)
  have h4: "(1::int) \<le> 5" by simp
  have h5: "get_products (shop 5) 3 = Resolved (catalog_shoe 3)" by (simp add: shop_def)
  from addProduct_new_entry [OF h1 h2 h3 h4 h5] h1 h2 h3 h5 c
  show ?thesis by (simp add: shoe_def catalog_shoe_def)
qed

section \<open>Removing a product\<close>

text \<open>
  Claim C4. The cart holds an entry with the given product id. Then \<^verbatim>\<open>removeProduct\<close>
  yields the list without that entry (the first with this id); the entries before it and
  after it keep their order and content, and no toast is shown. This holds in both source
  files.
\<close>

theorem removeProduct_present_entry:
  assumes "ready_for v w"
    and "cart_list w = xs @ p # ys"
    and "productId \<notin> set (map id' xs)"
    and "id' p = productId"
  shows "cart_list (snd (removeProduct_of v productId w)) = xs @ ys \<and>
         toasts (snd (removeProduct_of v productId w)) = toasts w"
proof -
  let ?P = "\<lambda>product. id' product = productId"
  from assms(3) have nx: "\<forall>x \<in> set xs. \<not> ?P x" by (rule absent_key)
  with assms have f: "List.find ?P (cart_list w) = Some p"
    by (simp add: find_first_decomp)
  from assms nx have u: "remove_first ?P (cart_list w) = xs @ ys"
    by (simp add: remove_first_decomp)
  from assms(1) have "carried_out w (removeProduct_outcome productId (cart_list w))
      (removeProduct_of v productId w)"
    by (rule removeProduct_of_refines)
  with f u show ?thesis
    by (simp add: carried_out_def removeProduct_outcome_def)
qed

theorem removeProduct_present_entry_witness:
  "ready_for Hooks_useCart (loaded [shoe 1 1, shoe 2 1]) \<and>
   cart_list (loaded [shoe 1 1, shoe 2 1]) = [shoe 1 1] @ shoe 2 1 # [] \<and>
   2 \<notin> set (map id' [shoe 1 1]) \<and> id' (shoe 2 1) = 2 \<and>
   cart_list (snd (removeProduct_of Hooks_useCart 2 (loaded [shoe 1 1, shoe 2 1])))
     = [shoe 1 1]"
proof -
  have h1: "ready_for Hooks_useCart (loaded [shoe 1 1, shoe 2 1])"
    by (simp add: loaded_eval ready_def heap_ok_def rendered_def)
  have h2: "cart_list (loaded [shoe 1 1, shoe 2 1]) = [shoe 1 1] @ shoe 2 1 # []"
    by (simp add: loaded_eval cart_list_def entries_def)
  have h3: "2 \<notin> set (map id' [shoe 1 1])" by (simp add: shoe_def)
  have h4: "id' (shoe 2 1) = 2" by (simp add: shoe_def)
  from removeProduct_present_entry [OF h1 h2 h3 h4] h1 h2 h3 h4
  show ?thesis by simp
qed

text \<open>
  Claim C10. \<^verbatim>\<open>removeProduct\<close> removes only the first entry with the given id. Where the
  list holds two or more entries with that id (which a stored text written by hand can
  bring about), the list splits into the entries before the first of them, that entry and
  the rest; the result is the entries before followed by the rest, and the rest still
  holds an entry with the id. This holds in both source files.
\<close>

theorem removeProduct_first_of_duplicates:
  assumes "ready_for v w"
    and "2 \<le> length (filter (\<lambda>product. id' product = productId) (cart_list w))"
  shows "\<exists>xs p ys. cart_list w = xs @ p # ys \<and> productId \<notin> set (map id' xs) \<and>
           id' p = productId \<and> productId \<in> set (map id' ys) \<and>
           cart_list (snd (removeProduct_of v productId w)) = xs @ ys"
proof -
  let ?P = "\<lambda>product. id' product = productId"
  from assms(2) have "filter ?P (cart_list w) \<noteq> []" by auto
  then have "\<exists>x \<in> set (cart_list w). ?P x" by (simp add: filter_empty_conv)
  then have "\<exists>xs p ys. cart_list w = xs @ p # ys \<and> ?P p \<and> (\<forall>x \<in> set xs. \<not> ?P x)"
    by (rule split_list_first_prop)
  then obtain xs p ys where dec: "cart_list w = xs @ p # ys" and pp: "?P p"
    and nx: "\<forall>x \<in> set xs. \<not> ?P x"
    by blast
  from nx have fx: "filter ?P xs = []" by (simp add: filter_empty_conv)
  with assms(2) dec pp have "filter ?P ys \<noteq> []" by auto
  then have later: "productId \<in> set (map id' ys)" by (auto simp: filter_empty_conv)
  from nx have early: "productId \<notin> set (map id' xs)" by auto
  from dec pp nx have f: "List.find ?P (cart_list w) = Some p"
    by (simp add: find_first_decomp)
  from dec pp nx have u: "remove_first ?P (cart_list w) = xs @ ys"
    by (simp add: remove_first_decomp)
  from assms(1) have "carried_out w (removeProduct_outcome productId (cart_list w))
      (removeProduct_of v productId w)"
    by (rule removeProduct_of_refines)
  with f u have "cart_list (snd (removeProduct_of v productId w)) = xs @ ys"
    by (simp add: carried_out_def removeProduct_outcome_def)
  with dec pp early later show ?thesis by blast
qed

theorem removeProduct_first_of_duplicates_witness:
  "ready_for Copy (loaded [shoe 1 1, shoe 2 1, shoe 2 7, shoe 3 1, shoe 2 9]) \<and>
   2 \<le> length (filter (\<lambda>product. id' product = 2)
                 (cart_list (loaded [shoe 1 1, shoe 2 1, shoe 2 7, shoe 3 1, shoe 2 9]))) \<and>
   (\<exists>xs p ys.
      cart_list (loaded [shoe 1 1, shoe 2 1, shoe 2 7, shoe 3 1, shoe 2 9]) = xs @ p # ys \<and>
      2 \<notin> set (map id' xs) \<and> id' p = 2 \<and> 2 \<in> set (map id' ys) \<and>
      cart_list (snd (removeProduct_of Copy 2
                        (loaded [shoe 1 1, shoe 2 1, shoe 2 7, shoe 3 1, shoe 2 9]))) = xs @ ys) \<and>
   cart_list (snd (removeProduct_of Copy 2
                     (loaded [shoe 1 1, shoe 2 1, shoe 2 7, shoe 3 1, shoe 2 9])))
     = [shoe 1 1, shoe 2 7, shoe 3 1, shoe 2 9]"
proof -
  let ?w = "loaded [shoe 1 1, shoe 2 1, shoe 2 7, shoe 3 1, shoe 2 9]"
  have h1: "ready_for Copy ?w" by (simp add: loaded_eval heap_ok_def)
  have c: "cart_list ?w = [shoe 1 1, shoe 2 1, shoe 2 7, shoe 3 1, shoe 2 9]"
    by (simp add: loaded_eval cart_list_def entries_def)
  have h2: "2 \<le> length (filter (\<lambda>product. id' product = 2) (cart_list ?w))"
    unfolding c by (simp add: shoe_def)
  have e: "cart_list (snd (removeProduct_of Copy 2 ?w)) = [shoe 1 1, shoe 2 7, shoe 3 1, shoe 2 9]"
    by (simp add: loaded_eval run_defs shoe_def)
  from removeProduct_first_of_duplicates [OF h1 h2] h1 h2 e
  show ?thesis by blast
qed

section \<open>Setting an amount\<close>

text \<open>
  Claim C5. For a requested amount of at least 1 and a stock request that answers with the
  amount \<open>s\<close>, \<^verbatim>\<open>updateProductAmount\<close> of \<^verbatim>\<open>src/hooks/useCart.tsx\<close> shows the
  out-of-stock toast and leaves list and store as they were when the amount exceeds \<open>s\<close>;
  sets the amount of the first entry with the id to the requested value, leaves the other
  entries as they were and stores the text of the new list when the amount is at most \<open>s\<close>
  and such an entry exists; and shows the update-failed toast and leaves list and store as
  they were when the amount is at most \<open>s\<close> and no entry has the id.
\<close>

theorem updateProductAmount_positive_amount:
  assumes "ready w"
    and "1 \<le> amount0"
    and "get_stock srv productId = Resolved (Stock (Some s))"
  shows "(amount0 > s \<longrightarrow>
            toasts (snd (updateProductAmount srv productId amount0 w)) = toasts w @ [Out_of_stock] \<and>
            cart_list (snd (updateProductAmount srv productId amount0 w)) = cart_list w \<and>
            localStorage (snd (updateProductAmount srv productId amount0 w)) = localStorage w) \<and>
         (amount0 \<le> s \<and> cart_list w = xs @ p # ys \<and> productId \<notin> set (map id' xs) \<and>
          id' p = productId \<longrightarrow>
            cart_list (snd (updateProductAmount srv productId amount0 w))
              = xs @ p\<lparr>amount := amount0\<rparr> # ys \<and>
            localStorage (snd (updateProductAmount srv productId amount0 w))
              = Some (JSON_stringify (xs @ p\<lparr>amount := amount0\<rparr> # ys)) \<and>
            toasts (snd (updateProductAmount srv productId amount0 w)) = toasts w) \<and>
         (amount0 \<le> s \<and> productId \<notin> set (map id' (cart_list w)) \<longrightarrow>
            toasts (snd (updateProductAmount srv productId amount0 w)) = toasts w @ [Update_failed] \<and>
            cart_list (snd (updateProductAmount srv productId amount0 w)) = cart_list w \<and>
            localStorage (snd (updateProductAmount srv productId amount0 w)) = localStorage w)"
proof -
  let ?P = "\<lambda>product. id' product = productId"
  let ?w' = "snd (updateProductAmount srv productId amount0 w)"
  from assms(1) have co: "carried_out w (updateProductAmount_outcome srv productId amount0 (cart_list w))
      (updateProductAmount srv productId amount0 w)"
    by (rule updateProductAmount_refines)
  have over: "amount0 > s \<longrightarrow> toasts ?w' = toasts w @ [Out_of_stock] \<and> cart_list ?w' = cart_list w
      \<and> localStorage ?w' = localStorage w"
    using co assms(2,3) by (auto simp: carried_out_def updateProductAmount_outcome_def)
  have present: "cart_list ?w' = xs @ p\<lparr>amount := amount0\<rparr> # ys \<and>
      localStorage ?w' = Some (JSON_stringify (xs @ p\<lparr>amount := amount0\<rparr> # ys)) \<and>
      toasts ?w' = toasts w"
    if le: "amount0 \<le> s" and dec: "cart_list w = xs @ p # ys" and nx0: "productId \<notin> set (map id' xs)"
      and pp: "id' p = productId"
  proof -
    from nx0 have nx: "\<forall>x \<in> set xs. \<not> ?P x" by (rule absent_key)
    with dec pp have f: "List.find ?P (cart_list w) = Some p" by (simp add: find_first_decomp)
    from dec pp nx have u: "update_first ?P g (cart_list w) = xs @ g p # ys" for g
      by (simp add: update_first_decomp)
    from co f u le assms(2,3) show ?thesis
      by (simp add: carried_out_def updateProductAmount_outcome_def)
  qed
  have absent: "toasts ?w' = toasts w @ [Update_failed] \<and> cart_list ?w' = cart_list w \<and>
      localStorage ?w' = localStorage w"
    if le: "amount0 \<le> s" and nx0: "productId \<notin> set (map id' (cart_list w))"
  proof -
    from nx0 have "\<forall>x \<in> set (cart_list w). \<not> ?P x" by (rule absent_key)
    then have f: "List.find ?P (cart_list w) = None" by (simp add: find_absent)
    from co f le assms(2,3) show ?thesis
      by (simp add: carried_out_def updateProductAmount_outcome_def)
  qed
  from over present absent show ?thesis by blast
qed

theorem updateProductAmount_positive_amount_witness:
  "ready (loaded [shoe 1 1, shoe 2 1]) \<and> (1::int) \<le> 4 \<and>
   get_stock (shop 5) 2 = Resolved (Stock (Some 5)) \<and>
   cart_list (loaded [shoe 1 1, shoe 2 1]) = [shoe 1 1] @ shoe 2 1 # [] \<and>
   cart_list (snd (updateProductAmount (shop 5) 2 4 (loaded [shoe 1 1, shoe 2 1])))
     = [shoe 1 1, shoe 2 4] \<and>
   localStorage (snd (updateProductAmount (shop 5) 2 4 (loaded [shoe 1 1, shoe 2 1])))
     = Some (JSON_stringify [shoe 1 1, shoe 2 4])"
proof -
  have h1: "ready (loaded [shoe 1 1, shoe 2 1])"
    by (simp add: loaded_eval ready_def heap_ok_def rendered_def)
  have h2: "(1::int) \<le> 4" by simp
  have h3: "get_stock (shop 5) 2 = Resolved (Stock (Some 5))" by (simp add: shop_def)
  have c: "cart_list (loaded [shoe 1 1, shoe 2 1]) = [shoe 1 1] @ shoe 2 1 # []"
    by (simp add: loaded_eval cart_list_def entries_def)
  have k: "2 \<notin> set (map id' [shoe 1 1])" "id' (shoe 2 1) = 2" by (simp_all add: shoe_def)
  from updateProductAmount_positive_amount [OF h1 h2 h3, of "[shoe 1 1]" "shoe 2 1" "[]"] c k h1 h3
  show ?thesis by (simp add: shoe_def)
qed

text \<open>
  Claim C6. For a requested amount of 0 or less, \<^verbatim>\<open>updateProductAmount\<close> returns with
  the state it started in: the list is the same, no toast is shown, no request is sent and
  nothing is stored. This holds in both source files; in the copy the operation does
  nothing for any amount.
\<close>

theorem updateProductAmount_nonpositive_amount:
  assumes "amount0 \<le> 0"
  shows "updateProductAmount_of v srv productId amount0 w = (Inr (), w)"
  using assms
  by (cases v)
     (simp_all add: updateProductAmount_def updateProductAmount_try_def
        updateProductAmount_copy_def)

theorem updateProductAmount_nonpositive_amount_witness:
  "(0::int) \<le> 0 \<and>
   updateProductAmount_of Hooks_useCart (shop 5) 2 0 (loaded [shoe 1 1, shoe 2 1])
     = (Inr (), loaded [shoe 1 1, shoe 2 1]) \<and>
   requests (snd (updateProductAmount_of Hooks_useCart (shop 5) 2 0 (loaded [shoe 1 1, shoe 2 1])))
     = [] \<and>
   toasts (snd (updateProductAmount_of Hooks_useCart (shop 5) 2 0 (loaded [shoe 1 1, shoe 2 1])))
     = []"
proof -
  have h: "(0::int) \<le> 0" by simp
  from updateProductAmount_nonpositive_amount
         [OF h, of Hooks_useCart "shop 5" 2 "loaded [shoe 1 1, shoe 2 1]"]
  show ?thesis by (simp add: loaded_eval)
qed

section \<open>Failures\<close>




section \<open>One entry per product\<close>

text \<open>
  Claim C7 says that the operations keep the ids of the list distinct under every answer
  of the server. The id of a new entry is the one in the product answer, which nothing
  compares with the id asked for: a server that answers the request for product 1 with
  product 2 gives a cart that already holds product 2 a second entry with id 2.
\<close>

theorem addProduct_wrong_product_counterexample:
  "distinct (map id' (cart_list (loaded [shoe 2 1]))) \<and>
   cart_list (snd (addProduct shop_of_one_product 1 (loaded [shoe 2 1]))) = [shoe 2 1, shoe 2 1] \<and>
   \<not> distinct (map id' (cart_list (snd (addProduct shop_of_one_product 1 (loaded [shoe 2 1])))))"
  by (simp add: loaded_eval run_defs shop_of_one_product_def shoe_def catalog_shoe_def
      extend_fields)

text \<open>
  Claim C7, amended. Where the ids of the list are distinct and the product request, if it
  resolves, answers with the id asked for or with an id that no entry has, the list after
  each of the three operations has distinct ids again. This holds in both source files.
\<close>

theorem operations_keep_ids_unique:
  assumes "ready_for v w"
    and "distinct (map id' (cart_list w))"
    and "answers_with_new_id srv productId (cart_list w)"
  shows "distinct (map id' (cart_list (snd (addProduct_of v srv productId w)))) \<and>
         distinct (map id' (cart_list (snd (removeProduct_of v productId w)))) \<and>
         distinct (map id' (cart_list (snd (updateProductAmount_of v srv productId amount0 w))))"
proof -
  let ?P = "\<lambda>product. id' product = productId"
  have a: "carried_out w (addProduct_outcome srv productId (cart_list w))
             (addProduct_of v srv productId w)"
    using assms(1) by (rule addProduct_of_refines)
  have r: "carried_out w (removeProduct_outcome productId (cart_list w))
             (removeProduct_of v productId w)"
    using assms(1) by (rule removeProduct_of_refines)
  have u: "carried_out w (updateProductAmount_outcome_of v srv productId amount0 (cart_list w))
             (updateProductAmount_of v srv productId amount0 w)"
    using assms(1) by (rule updateProductAmount_of_refines)
  have upd: "map id' (update_first ?P (\<lambda>product. product\<lparr>amount := n\<rparr>) (cart_list w))
             = map id' (cart_list w)" for n
    by (rule map_key_update_first) simp
  have new: "id' data \<notin> set (map id' (cart_list w))"
    if "get_products srv productId = Resolved data"
      and "List.find ?P (cart_list w) = None" for data
  proof -
    from that(2) have "productId \<notin> set (map id' (cart_list w))"
      by (auto simp: find_None_iff)
    with that(1) assms(3) show ?thesis by (auto simp: answers_with_new_id_def)
  qed
  have "distinct (map id' (cart_list (snd (addProduct_of v srv productId w))))"
    using a assms(2) upd new
    by (auto simp: carried_out_def addProduct_outcome_def extend_fields
        split: response.splits stock_data.splits option.splits if_splits)
  moreover have "distinct (map id' (cart_list (snd (removeProduct_of v productId w))))"
    using r assms(2) distinct_map_remove_first [of id' "cart_list w" ?P]
    by (auto simp: carried_out_def removeProduct_outcome_def split: option.splits)
  moreover have
    "distinct (map id' (cart_list (snd (updateProductAmount_of v srv productId amount0 w))))"
    using u assms(2) upd
    by (cases v)
       (auto simp: carried_out_def updateProductAmount_outcome_def
        split: response.splits stock_data.splits option.splits if_splits)
  ultimately show ?thesis by simp
qed

theorem operations_keep_ids_unique_witness:
  "ready_for Hooks_useCart (loaded [shoe 1 5]) \<and>
   distinct (map id' (cart_list (loaded [shoe 1 5]))) \<and>
   answers_with_new_id (shop 5) 3 (cart_list (loaded [shoe 1 5])) \<and>
   cart_list (snd (addProduct_of Hooks_useCart (shop 5) 3 (loaded [shoe 1 5])))
     = [shoe 1 5, shoe 3 1] \<and>
   distinct (map id' (cart_list (snd (addProduct_of Hooks_useCart (shop 5) 3 (loaded [shoe 1 5])))))"
proof -
  have h1: "ready_for Hooks_useCart (loaded [shoe 1 5])"
    by (simp add: loaded_eval ready_def heap_ok_def rendered_def)
  have c: "cart_list (loaded [shoe 1 5]) = [shoe 1 5]"
    by (simp add: loaded_eval cart_list_def entries_def)
  have h2: "distinct (map id' (cart_list (loaded [shoe 1 5])))"
    unfolding c by simp
  have h3: "answers_with_new_id (shop 5) 3 (cart_list (loaded [shoe 1 5]))"
    by (simp add: answers_with_new_id_def shop_def catalog_shoe_def)
  have e: "cart_list (snd (addProduct_of Hooks_useCart (shop 5) 3 (loaded [shoe 1 5])))
     = [shoe 1 5, shoe 3 1]"
    by (simp add: loaded_eval run_defs shop_def shoe_def catalog_shoe_def extend_fields)
  from operations_keep_ids_unique [OF h1 h2 h3, of 0] h1 h2 h3 e
  show ?thesis by simp
qed


section \<open>The stored text\<close>

text \<open>
  Claim C8. After each of the three operations, where the operation committed a list (the
  state holds another array) the text stored under the key is that of the new list,
  written by one \<^verbatim>\<open>setItem\<close>; where it did not, and so whenever it showed a toast, no
  \<^verbatim>\<open>setItem\<close> was made and the stored text is the one from before. This holds in both
  source files: in \<^verbatim>\<open>src/hooks/useCart.tsx\<close> the effect after the next render writes, in
  the copy the operation itself.
\<close>

theorem store_written_iff_committed:
  assumes "ready_for v w"
  shows "written_iff_committed w (snd (addProduct_of v srv productId w)) \<and>
         written_iff_committed w (snd (removeProduct_of v productId w)) \<and>
         written_iff_committed w (snd (updateProductAmount_of v srv productId amount0 w))"
proof -
  have a: "carried_out w (addProduct_outcome srv productId (cart_list w))
             (addProduct_of v srv productId w)"
    using assms by (rule addProduct_of_refines)
  have r: "carried_out w (removeProduct_outcome productId (cart_list w))
             (removeProduct_of v productId w)"
    using assms by (rule removeProduct_of_refines)
  have u: "carried_out w (updateProductAmount_outcome_of v srv productId amount0 (cart_list w))
             (updateProductAmount_of v srv productId amount0 w)"
    using assms by (rule updateProductAmount_of_refines)
  show ?thesis
    unfolding written_iff_committed_def
    using carried_out_store [OF a] carried_out_toast_state [OF a addProduct_outcome_toast]
      carried_out_store [OF r] carried_out_toast_state [OF r removeProduct_outcome_toast]
      carried_out_store [OF u]
      carried_out_toast_state [OF u updateProductAmount_outcome_of_toast]
    by blast
qed

theorem store_written_iff_committed_witness:
  "ready_for Hooks_useCart (loaded [shoe 1 1, shoe 2 1]) \<and>
   cart (snd (removeProduct_of Hooks_useCart 2 (loaded [shoe 1 1, shoe 2 1])))
     \<noteq> cart (loaded [shoe 1 1, shoe 2 1]) \<and>
   cart_list (snd (removeProduct_of Hooks_useCart 2 (loaded [shoe 1 1, shoe 2 1]))) = [shoe 1 1] \<and>
   localStorage (snd (removeProduct_of Hooks_useCart 2 (loaded [shoe 1 1, shoe 2 1])))
     = Some (JSON_stringify [shoe 1 1]) \<and>
   toasts (snd (removeProduct_of Hooks_useCart 3 (loaded [shoe 1 1, shoe 2 1])))
     = [Remove_failed] \<and>
   localStorage (snd (removeProduct_of Hooks_useCart 3 (loaded [shoe 1 1, shoe 2 1])))
     = Some (JSON_stringify [shoe 1 1, shoe 2 1]) \<and>
   setItem_calls (snd (removeProduct_of Hooks_useCart 3 (loaded [shoe 1 1, shoe 2 1]))) = 0"
proof -
  let ?w = "loaded [shoe 1 1, shoe 2 1]"
  have h: "ready_for Hooks_useCart ?w"
    by (simp add: loaded_eval ready_def heap_ok_def rendered_def)
  have c: "cart (snd (removeProduct_of Hooks_useCart 2 ?w)) \<noteq> cart ?w"
    by (simp add: loaded_eval run_defs shoe_def)
  have l: "cart_list (snd (removeProduct_of Hooks_useCart 2 ?w)) = [shoe 1 1]"
    by (simp add: loaded_eval run_defs shoe_def)
  have t: "toasts (snd (removeProduct_of Hooks_useCart 3 ?w)) = [Remove_failed]"
    by (simp add: loaded_eval run_defs shoe_def)
  have t0: "toasts ?w = []" "localStorage ?w = Some (JSON_stringify [shoe 1 1, shoe 2 1])"
    "setItem_calls ?w = 0"
    by (simp_all add: loaded_eval)
  from store_written_iff_committed [OF h, of "shop 5" 2 0] c l
  have w2: "localStorage (snd (removeProduct_of Hooks_useCart 2 ?w))
              = Some (JSON_stringify [shoe 1 1])"
    by (simp add: written_iff_committed_def)
  from store_written_iff_committed [OF h, of "shop 5" 3 0] t t0
  have w3: "localStorage (snd (removeProduct_of Hooks_useCart 3 ?w))
              = Some (JSON_stringify [shoe 1 1, shoe 2 1]) \<and>
            setItem_calls (snd (removeProduct_of Hooks_useCart 3 ?w)) = 0"
    by (simp add: written_iff_committed_def)
  from h c l t w2 w3 show ?thesis by simp
qed

section \<open>The two source files\<close>

text \<open>
  Claim C9. \<^verbatim>\<open>addProduct\<close> and \<^verbatim>\<open>removeProduct\<close> of the copy do what those of
  \<^verbatim>\<open>src/hooks/useCart.tsx\<close> do: started from states that show the same list, the same
  toasts and the same stored text, with the same product id and the same server, both
  return normally and end with the same list, the same toasts and the same stored text.
  By \<open>addProduct_ready\<close>, \<open>addProduct_copy_heap_ok\<close> and their counterparts for
  \<^verbatim>\<open>removeProduct\<close> the end states can start the next call.
\<close>

theorem copy_agrees_with_hooks_useCart:
  assumes "ready w1" and "heap_ok w2"
    and "cart_list w1 = cart_list w2"
    and "toasts w1 = toasts w2"
    and "localStorage w1 = localStorage w2"
  shows "fst (addProduct srv productId w1) = fst (addProduct_copy srv productId w2) \<and>
         cart_list (snd (addProduct srv productId w1))
           = cart_list (snd (addProduct_copy srv productId w2)) \<and>
         toasts (snd (addProduct srv productId w1))
           = toasts (snd (addProduct_copy srv productId w2)) \<and>
         localStorage (snd (addProduct srv productId w1))
           = localStorage (snd (addProduct_copy srv productId w2)) \<and>
         fst (removeProduct productId w1) = fst (removeProduct_copy productId w2) \<and>
         cart_list (snd (removeProduct productId w1))
           = cart_list (snd (removeProduct_copy productId w2)) \<and>
         toasts (snd (removeProduct productId w1))
           = toasts (snd (removeProduct_copy productId w2)) \<and>
         localStorage (snd (removeProduct productId w1))
           = localStorage (snd (removeProduct_copy productId w2))"
proof -
  have a1: "carried_out w1 (addProduct_outcome srv productId (cart_list w1))
              (addProduct srv productId w1)"
    using assms(1) by (rule addProduct_refines)
  have a2: "carried_out w2 (addProduct_outcome srv productId (cart_list w1))
              (addProduct_copy srv productId w2)"
    using assms(2) unfolding assms(3) by (rule addProduct_copy_refines)
  have r1: "carried_out w1 (removeProduct_outcome productId (cart_list w1))
              (removeProduct productId w1)"
    using assms(1) by (rule removeProduct_refines)
  have r2: "carried_out w2 (removeProduct_outcome productId (cart_list w1))
              (removeProduct_copy productId w2)"
    using assms(2) unfolding assms(3) by (rule removeProduct_copy_refines)
  from carried_out_same [OF a1 a2 assms(4,5,3)] carried_out_same [OF r1 r2 assms(4,5,3)]
  show ?thesis by simp
qed

theorem copy_agrees_with_hooks_useCart_witness:
  "ready (loaded [shoe 1 1, shoe 2 1]) \<and> heap_ok (loaded [shoe 1 1, shoe 2 1]) \<and>
   cart_list (snd (addProduct (shop 5) 3 (loaded [shoe 1 1, shoe 2 1])))
     = [shoe 1 1, shoe 2 1, shoe 3 1] \<and>
   cart_list (snd (addProduct_copy (shop 5) 3 (loaded [shoe 1 1, shoe 2 1])))
     = [shoe 1 1, shoe 2 1, shoe 3 1] \<and>
   localStorage (snd (addProduct_copy (shop 5) 3 (loaded [shoe 1 1, shoe 2 1])))
     = Some (JSON_stringify [shoe 1 1, shoe 2 1, shoe 3 1]) \<and>
   localStorage (snd (addProduct (shop 5) 3 (loaded [shoe 1 1, shoe 2 1])))
     = Some (JSON_stringify [shoe 1 1, shoe 2 1, shoe 3 1])"
proof -
  let ?w = "loaded [shoe 1 1, shoe 2 1]"
  have h1: "ready ?w" by (simp add: loaded_eval ready_def heap_ok_def rendered_def)
  have h2: "heap_ok ?w" by (simp add: loaded_eval heap_ok_def)
  have e: "cart_list (snd (addProduct_copy (shop 5) 3 ?w)) = [shoe 1 1, shoe 2 1, shoe 3 1]"
    "localStorage (snd (addProduct_copy (shop 5) 3 ?w))
       = Some (JSON_stringify [shoe 1 1, shoe 2 1, shoe 3 1])"
    by (simp_all add: loaded_eval run_defs shop_def shoe_def catalog_shoe_def extend_fields)
  from copy_agrees_with_hooks_useCart [OF h1 h2 refl refl refl, of "shop 5" 3] h1 h2 e
  show ?thesis by simp
qed

end
